theory Spec2Isabelle
  imports Complex_Main "HOL-Library.AList"
begin

section \<open>Data model of video\_processing\_refactored.py\<close>

text \<open>
  The arithmetic Python does on its floats is idealised as arithmetic on real numbers:
  rounding, infinities and NaN are not modelled there. The vector the softmax returns is the
  exception: its entries are rounded to float32, as the tensor holds them. A Python dict is
  an association list in insertion order; storing a key is
  \<^const>\<open>AList.update\<close> (replace in place, otherwise append) and looking one up is
  \<^const>\<open>map_of\<close>.
\<close>

datatype py_error = ZeroDivisionError | IndexError | ValueError

text \<open>What the program observes of a scenedetect time code: \<open>get_frames()\<close>,
  \<open>get_seconds()\<close> and \<open>str()\<close>.\<close>

record timecode =
  get_frames :: nat
  get_seconds :: real
  tc_str :: string

text \<open>An entry of \<open>scene_frames\<close>. \<open>first_frame\<close> is \<open>None\<close> for every value that is
  not a numpy array (extract\_frames stores Python's \<open>None\<close> there).\<close>

record 'img scene_data =
  start_time :: timecode
  end_time :: timecode
  frames :: "'img list"
  first_frame :: "'img option"

text \<open>An entry of \<open>scene_categories\<close>; the three fields prefixed \<open>rec\<close> are the keys
  \<open>start_time\<close>, \<open>end_time\<close> and \<open>first_frame\<close> of the emitted dict.\<close>

record 'img classification =
  category :: string
  confidence :: real
  rec_start_time :: string
  rec_end_time :: string
  duration :: real
  rec_first_frame :: 'img
  best_description :: string

section \<open>classify\_and\_categorize\_scenes\<close>

definition action_indices :: "nat list" where
  "action_indices = [0, 1, 2, 3, 4, 5, 6, 7, 8, 9]"

text \<open>\<open>list(set(range(len(description_texts))) - set(action_indices))\<close>, listed in
  increasing order (over the reals the order of summation does not matter).\<close>

definition context_indices :: "nat \<Rightarrow> nat list" where
  "context_indices m = filter (\<lambda>i. i \<notin> set action_indices) [0..<m]"

text \<open>
  The similarity logits are a float32 tensor (the model on the CPU device), and so is the
  vector that \<open>logits.softmax(dim=0)\<close> returns; \<open>tolist()\<close> turns its entries into Python
  floats of the same value. \<open>float32\<close> rounds a real of the unit interval, where the softmax
  takes its values, to the nearest float32 number, ties to the even one: \<open>binade 125 x\<close>
  counts the doublings that bring \<open>x\<close> to at least one half, capped where the subnormal
  numbers begin, and the float32 numbers around \<open>x\<close> are then the multiples of
  \<open>1 / 2 ^ (binade 125 x + 24)\<close>.
\<close>

definition round_half_even :: "real \<Rightarrow> int" where
  "round_half_even y =
     (if y - of_int \<lfloor>y\<rfloor> < 1 / 2 then \<lfloor>y\<rfloor>
      else if 1 / 2 < y - of_int \<lfloor>y\<rfloor> then \<lfloor>y\<rfloor> + 1
      else if even \<lfloor>y\<rfloor> then \<lfloor>y\<rfloor> else \<lfloor>y\<rfloor> + 1)"

fun binade :: "nat \<Rightarrow> real \<Rightarrow> nat" where
  "binade 0 x = 0"
| "binade (Suc n) x = (if 1 / 2 \<le> x then 0 else Suc (binade n (2 * x)))"

definition float32 :: "real \<Rightarrow> real" where
  "float32 x =
     of_int (round_half_even (x * 2 ^ (binade 125 x + 24))) / 2 ^ (binade 125 x + 24)"

text \<open>\<open>logits.softmax(dim=0)\<close>: each entry is the float32 number nearest to the value of the
  defining formula.\<close>

definition softmax :: "real list \<Rightarrow> real list" where
  "softmax logits = map (\<lambda>x. float32 (exp x / sum_list (map exp logits))) logits"

text \<open>
  The loop over the frames of a scene (source lines 89 to 103). The parameter \<open>lg\<close> stands
  for the CLIP model applied to one frame and the vocabulary (lines 91 to 97): it yields the
  squeezed logits vector, or \<open>None\<close> when anything in the \<open>try\<close> block raises, in which case
  the frame is skipped and neither \<open>scene_scores\<close> nor \<open>valid_frames\<close> changes.
  \<open>zip\<close> stops at the shorter list, as Python's does.
\<close>

fun score_frames ::
  "('img \<Rightarrow> real list option) \<Rightarrow> 'img list \<Rightarrow> real list \<times> nat \<Rightarrow> real list \<times> nat" where
  "score_frames lg [] acc = acc"
| "score_frames lg (frame # rest) (scene_scores, valid_frames) =
     (case lg frame of
        None \<Rightarrow> score_frames lg rest (scene_scores, valid_frames)
      | Some logits \<Rightarrow>
          score_frames lg rest
            (map (\<lambda>(a, b). a + b) (zip scene_scores (softmax logits)), valid_frames + 1))"

text \<open>Lines 86 to 106: the mean score per phrase, \<open>None\<close> when no frame was scored.\<close>

definition mean_scores ::
  "('img \<Rightarrow> real list option) \<Rightarrow> nat \<Rightarrow> 'img list \<Rightarrow> real list option" where
  "mean_scores lg m fs =
     (case score_frames lg fs (replicate m 0, 0) of
        (scene_scores, valid_frames) \<Rightarrow>
          if valid_frames > 0
          then Some (map (\<lambda>score. score / real valid_frames) scene_scores)
          else None)"

text \<open>\<open>xs[i]\<close> for a non-negative index.\<close>

definition py_index :: "'a list \<Rightarrow> nat \<Rightarrow> py_error + 'a" where
  "py_index xs i = (if i < length xs then Inr (xs ! i) else Inl IndexError)"

text \<open>\<open>sum(scene_scores[i] for i in idx)\<close>: the first index out of range raises.\<close>

fun sum_at :: "real list \<Rightarrow> nat list \<Rightarrow> py_error + real" where
  "sum_at scores [] = Inr 0"
| "sum_at scores (i # idx) =
     (case py_index scores i of
        Inl e \<Rightarrow> Inl e
      | Inr x \<Rightarrow> (case sum_at scores idx of Inl e \<Rightarrow> Inl e | Inr s \<Rightarrow> Inr (x + s)))"

text \<open>\<open>sum(scene_scores[i] for i in idx) / len(idx)\<close>: the sum is evaluated first, then
  the division, which raises on an empty index list.\<close>

definition mean_at :: "real list \<Rightarrow> nat list \<Rightarrow> py_error + real" where
  "mean_at scores idx =
     (case sum_at scores idx of
        Inl e \<Rightarrow> Inl e
      | Inr s \<Rightarrow> if length idx = 0 then Inl ZeroDivisionError else Inr (s / real (length idx)))"

definition action_confidence :: "real list \<Rightarrow> py_error + real" where
  "action_confidence scene_scores = mean_at scene_scores action_indices"

definition context_confidence :: "nat \<Rightarrow> real list \<Rightarrow> py_error + real" where
  "context_confidence m scene_scores = mean_at scene_scores (context_indices m)"

text \<open>\<open>xs.index(v)\<close>: the first position holding \<open>v\<close>.\<close>

fun index_of :: "real list \<Rightarrow> real \<Rightarrow> py_error + nat" where
  "index_of [] v = Inl ValueError"
| "index_of (x # xs) v =
     (if x = v then Inr 0
      else (case index_of xs v of Inl e \<Rightarrow> Inl e | Inr i \<Rightarrow> Inr (Suc i)))"

text \<open>\<open>max(xs)\<close>: raises on an empty list.\<close>

definition py_max :: "real list \<Rightarrow> py_error + real" where
  "py_max xs = (case xs of [] \<Rightarrow> Inl ValueError | x # rest \<Rightarrow> Inr (fold max rest x))"

text \<open>\<open>scene_scores.index(max(scene_scores))\<close>.\<close>

definition best_description_index :: "real list \<Rightarrow> py_error + nat" where
  "best_description_index scene_scores =
     (case py_max scene_scores of Inl e \<Rightarrow> Inl e | Inr v \<Rightarrow> index_of scene_scores v)"

text \<open>Lines 113 to 118.\<close>

definition categorize :: "real \<Rightarrow> real \<Rightarrow> string \<times> real" where
  "categorize ac cc = (if ac > cc then (''Action Scene'', ac) else (''Context Scene'', cc))"

text \<open>
  The body of the loop over the scenes (lines 78 to 129). \<open>Inr None\<close>: the scene is skipped
  and nothing is stored; \<open>Inr (Some r)\<close>: \<open>r\<close> is stored under the scene id; \<open>Inl e\<close>: the
  exception \<open>e\<close> leaves the function, since nothing outside the frame loop catches it.
\<close>

definition classify_scene ::
  "('img \<Rightarrow> real list option) \<Rightarrow> string list \<Rightarrow> 'img scene_data
     \<Rightarrow> py_error + 'img classification option" where
  "classify_scene lg description_texts sd =
     (case first_frame sd of
        None \<Rightarrow> Inr None
      | Some ff \<Rightarrow>
         (case mean_scores lg (length description_texts) (frames sd) of
            None \<Rightarrow> Inr None
          | Some scene_scores \<Rightarrow>
             (case action_confidence scene_scores of
                Inl e \<Rightarrow> Inl e
              | Inr ac \<Rightarrow>
             (case context_confidence (length description_texts) scene_scores of
                Inl e \<Rightarrow> Inl e
              | Inr cc \<Rightarrow>
             (case best_description_index scene_scores of
                Inl e \<Rightarrow> Inl e
              | Inr bi \<Rightarrow>
             (case py_index description_texts bi of
                Inl e \<Rightarrow> Inl e
              | Inr bd \<Rightarrow>
                 Inr (Some \<lparr> category = fst (categorize ac cc),
                             confidence = snd (categorize ac cc),
                             rec_start_time = tc_str (start_time sd),
                             rec_end_time = tc_str (end_time sd),
                             duration = get_seconds (end_time sd) - get_seconds (start_time sd),
                             rec_first_frame = ff,
                             best_description = bd \<rparr>)))))))"

fun classify_loop ::
  "('img \<Rightarrow> real list option) \<Rightarrow> string list \<Rightarrow> (nat \<times> 'img scene_data) list
     \<Rightarrow> (nat \<times> 'img classification) list \<Rightarrow> py_error + (nat \<times> 'img classification) list" where
  "classify_loop lg description_texts [] scene_categories = Inr scene_categories"
| "classify_loop lg description_texts ((scene_id, sd) # rest) scene_categories =
     (case classify_scene lg description_texts sd of
        Inl e \<Rightarrow> Inl e
      | Inr None \<Rightarrow> classify_loop lg description_texts rest scene_categories
      | Inr (Some r) \<Rightarrow>
          classify_loop lg description_texts rest (AList.update scene_id r scene_categories))"

definition classify_and_categorize_scenes ::
  "('img \<Rightarrow> real list option) \<Rightarrow> string list \<Rightarrow> (nat \<times> 'img scene_data) list
     \<Rightarrow> py_error + (nat \<times> 'img classification) list" where
  "classify_and_categorize_scenes lg description_phrases scene_frames =
     classify_loop lg description_phrases scene_frames []"

section \<open>extract\_frames\<close>

text \<open>
  The decoder (\<open>cv2.VideoCapture\<close>) is outside the repository, so it is a parameter: a state
  of type \<open>'cap\<close> with the three operations the function calls. \<open>cap_read\<close> is
  \<open>cap.read()\<close>: the frame when \<open>ret\<close> is true, \<open>None\<close> otherwise, and the state after the
  call. \<open>cap_pos\<close> is \<open>cap.get(CAP_PROP_POS_FRAMES)\<close> and \<open>cap_seek\<close> is
  \<open>cap.set(CAP_PROP_POS_FRAMES, n)\<close>.
\<close>

record ('cap, 'img) video_capture =
  cap_read :: "'cap \<Rightarrow> 'img option \<times> 'cap"
  cap_pos :: "'cap \<Rightarrow> nat"
  cap_seek :: "nat \<Rightarrow> 'cap \<Rightarrow> 'cap"

text \<open>
  The \<open>while\<close> loop of lines 59 to 64, with the local variables \<open>frames\<close> (\<open>fs\<close>) and
  \<open>first_frame\<close> (\<open>ff\<close>). The loop has no exit but its condition, so it need not return:
  \<open>None\<close> is the run that never leaves the loop.
\<close>

partial_function (option) read_loop ::
  "('cap, 'img) video_capture \<Rightarrow> nat \<Rightarrow> 'cap \<Rightarrow> 'img list \<Rightarrow> 'img option
     \<Rightarrow> ('img list \<times> 'img option \<times> 'cap) option" where
  "read_loop vc end_frame cap fs ff =
     (if cap_pos vc cap < end_frame
      then (case cap_read vc cap of
              (None, cap') \<Rightarrow> read_loop vc end_frame cap' fs ff
            | (Some frame, cap') \<Rightarrow>
                read_loop vc end_frame cap' (fs @ [frame])
                  (if ff = None then Some frame else ff))
      else Some (fs, ff, cap))"

text \<open>The \<open>for\<close> loop over \<open>enumerate(scene_list)\<close> (lines 55 to 66); the decoder state is
  threaded from one scene to the next.\<close>

fun extract_loop ::
  "('cap, 'img) video_capture \<Rightarrow> nat \<Rightarrow> (timecode \<times> timecode) list \<Rightarrow> 'cap
     \<Rightarrow> (nat \<times> 'img scene_data) list \<Rightarrow> (nat \<times> 'img scene_data) list option" where
  "extract_loop vc i [] cap scene_frames = Some scene_frames"
| "extract_loop vc i ((st, en) # rest) cap scene_frames =
     (case read_loop vc (get_frames en) (cap_seek vc (get_frames st) cap) [] None of
        None \<Rightarrow> None
      | Some (fs, ff, cap') \<Rightarrow>
          extract_loop vc (i + 1) rest cap'
            (AList.update i \<lparr> start_time = st, end_time = en, frames = fs, first_frame = ff \<rparr>
               scene_frames))"

text \<open>\<open>cap\<close> is the state of the freshly opened \<open>cv2.VideoCapture(video_path)\<close>.\<close>

definition extract_frames ::
  "('cap, 'img) video_capture \<Rightarrow> 'cap \<Rightarrow> (timecode \<times> timecode) list
     \<Rightarrow> (nat \<times> 'img scene_data) list option" where
  "extract_frames vc cap scene_list = extract_loop vc 0 scene_list cap []"

section \<open>convert\_timestamp\_to\_seconds\<close>

text \<open>\<open>s.split(sep)\<close> for a separator of one character.\<close>

fun split_on :: "char \<Rightarrow> string \<Rightarrow> string list" where
  "split_on sep [] = [[]]"
| "split_on sep (c # cs) =
     (if c = sep then [] # split_on sep cs
      else (case split_on sep cs of [] \<Rightarrow> [[c]] | part # parts \<Rightarrow> (c # part) # parts))"

definition digit_value :: "char \<Rightarrow> nat option" where
  "digit_value c = map_of (zip ''0123456789'' [0, 1, 2, 3, 4, 5, 6, 7, 8, 9]) c"

fun digits_value :: "string \<Rightarrow> nat \<Rightarrow> nat option" where
  "digits_value [] acc = Some acc"
| "digits_value (c # cs) acc =
     (case digit_value c of None \<Rightarrow> None | Some d \<Rightarrow> digits_value cs (10 * acc + d))"

definition unsigned_decimal :: "string \<Rightarrow> real option" where
  "unsigned_decimal s =
     (case split_on CHR ''.'' s of
        [ip] \<Rightarrow> (if ip = [] then None else map_option real (digits_value ip 0))
      | [ip, fp] \<Rightarrow>
          (if ip = [] \<and> fp = [] then None
           else (case (digits_value ip 0, digits_value fp 0) of
                   (Some i, Some f) \<Rightarrow> Some (real i + real f / 10 ^ length fp)
                 | _ \<Rightarrow> None))
      | _ \<Rightarrow> None)"

text \<open>
  Python's \<open>float(s)\<close> on a plain decimal literal (an optional sign, digits, an optional
  point and digits), which is the form \<open>H:MM:SS[.fff]\<close> that the string of a time code has;
  \<open>None\<close> is \<open>ValueError\<close>. The value is the exact decimal: rounding to binary64 is not
  modelled, and neither are exponents, underscores, surrounding blanks, \<open>inf\<close> and \<open>nan\<close>.
\<close>

definition py_float :: "string \<Rightarrow> real option" where
  "py_float s =
     (case s of
        [] \<Rightarrow> None
      | c # cs \<Rightarrow>
          if c = CHR ''-'' then map_option uminus (unsigned_decimal cs)
          else if c = CHR ''+'' then unsigned_decimal cs
          else unsigned_decimal s)"

text \<open>\<open>int(x)\<close> of a float: truncation towards zero.\<close>

definition py_int :: "real \<Rightarrow> int" where
  "py_int x = (if 0 \<le> x then \<lfloor>x\<rfloor> else \<lceil>x\<rceil>)"

text \<open>Lines 193 and 194. Unpacking into \<open>h, m, s\<close> raises \<open>ValueError\<close> unless there are
  exactly three parts, and so does \<open>float\<close> on a part that is not a number.\<close>

definition convert_timestamp_to_seconds :: "string \<Rightarrow> py_error + real" where
  "convert_timestamp_to_seconds timestamp =
     (case map py_float (split_on CHR '':'' timestamp) of
        [Some h, Some m, Some s] \<Rightarrow>
          Inr (real_of_int (py_int h) * 3600 + real_of_int (py_int m) * 60 + s)
      | _ \<Rightarrow> Inl ValueError)"

section \<open>Notions used to state the properties\<close>

text \<open>A frame is scored when the \<open>try\<close> block runs to its end.\<close>

definition scored :: "('img \<Rightarrow> real list option) \<Rightarrow> 'img \<Rightarrow> bool" where
  "scored lg f = (lg f \<noteq> None)"

text \<open>The scene with the frames that fail to score removed.\<close>

definition drop_failed_frames ::
  "('img \<Rightarrow> real list option) \<Rightarrow> 'img scene_data \<Rightarrow> 'img scene_data" where
  "drop_failed_frames lg sd = sd\<lparr>frames := filter (scored lg) (frames sd)\<rparr>"

text \<open>The first element of a list, if there is one.\<close>

definition first_of :: "'img list \<Rightarrow> 'img option" where
  "first_of fs = (case fs of [] \<Rightarrow> None | frame # _ \<Rightarrow> Some frame)"

section \<open>Concrete inputs\<close>

text \<open>A vocabulary of twelve phrases (ten action phrases, then two context phrases) and its
  first ten phrases alone.\<close>

definition demo_texts :: "string list" where
  "demo_texts = [''run'', ''jump'', ''kick'', ''punch'', ''chase'', ''fall'', ''throw'', ''swim'',
                 ''climb'', ''dance'', ''beach'', ''office'']"

definition ten_texts :: "string list" where
  "ten_texts = take 10 demo_texts"

definition tc :: "nat \<Rightarrow> timecode" where
  "tc n = \<lparr> get_frames = n, get_seconds = real n / 25, tc_str = ''0:00:00'' \<rparr>"

text \<open>A frame is here the logits vector the model gives it; the empty frame is one on which
  the \<open>try\<close> block raises.\<close>

definition demo_lg :: "real list \<Rightarrow> real list option" where
  "demo_lg frame = (if frame = [] then None else Some frame)"

definition tie_frame :: "real list" where
  "tie_frame = [0, 0, 0, 0, 0, 0, 0, 0, 0, 0, 0, 0]"

definition action_frame :: "real list" where
  "action_frame = [ln 2, ln 2, ln 2, ln 2, ln 2, ln 2, ln 2, ln 2, ln 2, ln 2, 0, 0]"

definition tie_scene :: "real list scene_data" where
  "tie_scene = \<lparr> start_time = tc 0, end_time = tc 50,
                 frames = [tie_frame, []], first_frame = Some tie_frame \<rparr>"

definition action_scene :: "real list scene_data" where
  "action_scene = \<lparr> start_time = tc 50, end_time = tc 75,
                    frames = [[], action_frame], first_frame = Some [] \<rparr>"

definition unscored_scene :: "real list scene_data" where
  "unscored_scene = \<lparr> start_time = tc 75, end_time = tc 100,
                      frames = [[], []], first_frame = Some [] \<rparr>"

definition headless_scene :: "real list scene_data" where
  "headless_scene = \<lparr> start_time = tc 100, end_time = tc 125,
                      frames = [tie_frame], first_frame = None \<rparr>"

definition demo_scenes :: "(nat \<times> real list scene_data) list" where
  "demo_scenes = [(0, tie_scene), (1, action_scene), (2, unscored_scene), (3, headless_scene)]"

definition tie_record :: "real list classification" where
  "tie_record = \<lparr> category = ''Context Scene'', confidence = 11184811 / 134217728,
                  rec_start_time = ''0:00:00'', rec_end_time = ''0:00:00'', duration = 2,
                  rec_first_frame = tie_frame, best_description = ''run'' \<rparr>"

definition action_record :: "real list classification" where
  "action_record = \<lparr> category = ''Action Scene'', confidence = 3050403 / 33554432,
                     rec_start_time = ''0:00:00'', rec_end_time = ''0:00:00'', duration = 1,
                     rec_first_frame = [], best_description = ''run'' \<rparr>"

definition ten_scene :: "real list scene_data" where
  "ten_scene = \<lparr> start_time = tc 0, end_time = tc 50,
                 frames = [[0, 0, 0, 0, 0, 0, 0, 0, 0, 0]], first_frame = Some [] \<rparr>"

text \<open>
  A decoder over a video of six frames, the second and the last two of which do not decode.
  A read inside the video moves on to the next frame whether it decodes or not; a read at the
  end of the video fails and leaves the position where it is.
\<close>

definition demo_video :: "nat option list" where
  "demo_video = [Some 10, None, Some 12, Some 13, None, None]"

definition demo_capture :: "(nat, nat) video_capture" where
  "demo_capture =
     \<lparr> cap_read = (\<lambda>p. if p < length demo_video then (demo_video ! p, p + 1) else (None, p)),
       cap_pos = (\<lambda>p. p),
       cap_seek = (\<lambda>n p. n) \<rparr>"

definition demo_scene_list :: "(timecode \<times> timecode) list" where
  "demo_scene_list = [(tc 0, tc 2), (tc 2, tc 4), (tc 4, tc 6)]"

definition demo_bundles :: "(nat \<times> nat scene_data) list" where
  "demo_bundles =
     [(0, \<lparr> start_time = tc 0, end_time = tc 2, frames = [10], first_frame = Some 10 \<rparr>),
      (1, \<lparr> start_time = tc 2, end_time = tc 4, frames = [12, 13], first_frame = Some 12 \<rparr>),
      (2, \<lparr> start_time = tc 4, end_time = tc 6, frames = [], first_frame = None \<rparr>)]"

text \<open>
  A decoder over a video of two frames that behaves at the end of the video as the OpenCV
  decoder does: a read inside the video yields the frame and moves on to the next, a read at
  the end fails and leaves the position where it is.
\<close>

definition short_capture :: "(nat, nat) video_capture" where
  "short_capture =
     \<lparr> cap_read = (\<lambda>p. if p < 2 then (Some p, p + 1) else (None, p)),
       cap_pos = (\<lambda>p. p),
       cap_seek = (\<lambda>n p. n) \<rparr>"

section \<open>Facts about the scoring loop\<close>

lemma context_indices_upt: "context_indices m = [10..<m]"
proof (cases "10 \<le> m")
  case True
  then have "[0..<m] = [0..<10] @ [10..<m]"
    using upt_add_eq_append [of 0 10 "m - 10"] by simp
  moreover have "filter (\<lambda>i. i \<notin> set action_indices) [0..<10] = []"
    by (auto simp: action_indices_def filter_empty_conv)
  moreover have "filter (\<lambda>i. i \<notin> set action_indices) [10..<m] = [10..<m]"
    by (auto simp: action_indices_def filter_id_conv)
  ultimately show ?thesis by (simp add: context_indices_def)
next
  case False
  then have "filter (\<lambda>i. i \<notin> set action_indices) [0..<m] = []"
    by (auto simp: action_indices_def filter_empty_conv)
  with False show ?thesis by (simp add: context_indices_def)
qed

lemma sum_at_in_range:
  "\<forall>i\<in>set idx. i < length scores \<Longrightarrow> sum_at scores idx = Inr (sum_list (map ((!) scores) idx))"
  by (induction idx) (auto simp: py_index_def)

lemma sum_at_Inr_range:
  "sum_at scores idx = Inr s \<Longrightarrow> \<forall>i\<in>set idx. i < length scores"
  by (induction idx arbitrary: s) (auto simp: py_index_def split: sum.splits if_splits)

lemma sum_at_Inr_iff:
  "sum_at scores idx = Inr s
     \<longleftrightarrow> (\<forall>i\<in>set idx. i < length scores) \<and> s = sum_list (map ((!) scores) idx)"
  using sum_at_in_range [of idx scores] sum_at_Inr_range [of scores idx s] by auto

lemma mean_at_Inr:
  "mean_at scores idx = Inr a \<Longrightarrow>
     idx \<noteq> [] \<and> (\<forall>i\<in>set idx. i < length scores)
     \<and> a = sum_list (map ((!) scores) idx) / real (length idx)"
  by (auto simp: mean_at_def sum_at_Inr_iff split: sum.splits if_splits)

lemma mean_at_total:
  "idx \<noteq> [] \<Longrightarrow> \<forall>i\<in>set idx. i < length scores \<Longrightarrow> \<exists>a. mean_at scores idx = Inr a"
  by (simp add: mean_at_def sum_at_in_range)

lemma sum_list_nth_upt: "sum_list (map f [a..<b]) = (\<Sum>i = a..<b. f i)"
  by (simp add: sum_list_distinct_conv_sum_set)

lemma score_frames_length_le:
  "length (fst (score_frames lg fs (scores, v))) \<le> length scores"
proof (induction fs arbitrary: scores v)
  case Nil
  then show ?case by simp
next
  case (Cons f fs)
  show ?case
  proof (cases "lg f")
    case None
    then show ?thesis using Cons.IH by simp
  next
    case (Some l)
    have "length (fst (score_frames lg fs (map (\<lambda>(a, b). a + b) (zip scores (softmax l)), v + 1)))
            \<le> length (map (\<lambda>(a, b). a + b) (zip scores (softmax l)))"
      by (rule Cons.IH)
    then show ?thesis using Some by simp
  qed
qed

lemma score_frames_length:
  assumes "\<forall>f\<in>set fs. \<forall>l. lg f = Some l \<longrightarrow> length l = length scores"
  shows "length (fst (score_frames lg fs (scores, v))) = length scores"
  using assms
proof (induction fs arbitrary: scores v)
  case Nil
  then show ?case by simp
next
  case (Cons f fs)
  show ?case
  proof (cases "lg f")
    case None
    with Cons show ?thesis by simp
  next
    case (Some l)
    let ?s = "map (\<lambda>(a, b). a + b) (zip scores (softmax l))"
    from Some Cons.prems have l: "length l = length scores" by simp
    then have len: "length ?s = length scores" by (simp add: softmax_def)
    with Cons.prems have "\<forall>g\<in>set fs. \<forall>l. lg g = Some l \<longrightarrow> length l = length ?s" by simp
    from Cons.IH [OF this] len Some show ?thesis by simp
  qed
qed

lemma score_frames_valid:
  "snd (score_frames lg fs (scores, v)) = v + length (filter (\<lambda>f. lg f \<noteq> None) fs)"
  by (induction fs arbitrary: scores v) (auto split: option.splits)

lemma score_frames_scored:
  "score_frames lg (filter (scored lg) fs) acc = score_frames lg fs acc"
  by (induction fs arbitrary: acc) (auto simp: scored_def split: option.splits)

lemma mean_scores_scored:
  "mean_scores lg m (filter (scored lg) fs) = mean_scores lg m fs"
  by (simp add: mean_scores_def score_frames_scored)

lemma mean_scores_None_iff:
  "mean_scores lg m fs = None \<longleftrightarrow> (\<forall>f\<in>set fs. lg f = None)"
proof -
  obtain s v where sv: "score_frames lg fs (replicate m 0, 0) = (s, v)"
    by (cases "score_frames lg fs (replicate m 0, 0)")
  have "v = length (filter (\<lambda>f. lg f \<noteq> None) fs)"
    using score_frames_valid [of lg fs "replicate m 0" 0] sv by simp
  then have "v = 0 \<longleftrightarrow> (\<forall>f\<in>set fs. lg f = None)"
    by (simp add: filter_empty_conv)
  with sv show ?thesis by (auto simp: mean_scores_def)
qed

lemma mean_scores_length_le:
  "mean_scores lg m fs = Some scores \<Longrightarrow> length scores \<le> m"
  using score_frames_length_le [of lg fs "replicate m 0" 0]
  by (auto simp: mean_scores_def split: prod.splits if_splits)

lemma mean_scores_length:
  assumes "\<forall>f\<in>set fs. \<forall>l. lg f = Some l \<longrightarrow> length l = m"
    and "mean_scores lg m fs = Some scores"
  shows "length scores = m"
proof -
  have "length (fst (score_frames lg fs (replicate m 0, 0))) = length (replicate m (0::real))"
    by (rule score_frames_length) (use assms(1) in simp)
  with assms(2) show ?thesis
    by (auto simp: mean_scores_def split: prod.splits if_splits)
qed

subsection \<open>The softmax and the bounds of the mean scores\<close>


















subsection \<open>The best description\<close>

lemma index_of_Inr:
  "index_of xs v = Inr i \<Longrightarrow> i < length xs \<and> xs ! i = v \<and> (\<forall>j<i. xs ! j \<noteq> v)"
proof (induction xs arbitrary: i)
  case Nil
  then show ?case by simp
next
  case (Cons x xs)
  show ?case
  proof (cases "x = v")
    case True
    with Cons.prems show ?thesis by simp
  next
    case False
    with Cons.prems obtain k where k: "index_of xs v = Inr k" "i = Suc k"
      by (auto split: sum.splits)
    from Cons.IH [OF k(1)] have "k < length xs" "xs ! k = v" "\<forall>j<k. xs ! j \<noteq> v"
      by simp_all
    with False k(2) show ?thesis
      by (auto simp: nth_Cons split: nat.splits)
  qed
qed

lemma index_of_mem: "v \<in> set xs \<Longrightarrow> \<exists>i. index_of xs v = Inr i"
  by (induction xs) auto

lemma py_max_Inr: "py_max xs = Inr v \<Longrightarrow> v \<in> set xs \<and> (\<forall>x\<in>set xs. x \<le> v)"
proof (cases xs)
  case Nil
  assume "py_max xs = Inr v"
  with Nil show ?thesis by (simp add: py_max_def)
next
  case (Cons x rest)
  assume "py_max xs = Inr v"
  with Cons have "v = fold max rest x"
    by (simp add: py_max_def)
  then have "v = Max (set (x # rest))"
    by (simp only: Max.set_eq_fold)
  then have "v \<in> set (x # rest)" "\<forall>y\<in>set (x # rest). y \<le> v"
    using Max_in [of "set (x # rest)"] Max_ge [of "set (x # rest)"] by auto
  with Cons show ?thesis by simp
qed

lemma best_description_index_Inr:
  assumes "best_description_index scores = Inr i"
  shows "i < length scores \<and> (\<forall>j<length scores. scores ! j \<le> scores ! i)
         \<and> (\<forall>j<i. scores ! j < scores ! i)"
proof -
  from assms obtain v where v: "py_max scores = Inr v" "index_of scores v = Inr i"
    by (auto simp: best_description_index_def split: sum.splits)
  from index_of_Inr [OF v(2)] have i: "i < length scores" "scores ! i = v" "\<forall>j<i. scores ! j \<noteq> v"
    by simp_all
  from py_max_Inr [OF v(1)] have m: "\<forall>x\<in>set scores. x \<le> v" by simp
  have "\<forall>j<length scores. scores ! j \<le> v" using m by simp
  moreover have "\<forall>j<i. scores ! j < v"
  proof (intro allI impI)
    fix j assume "j < i"
    with i have "scores ! j \<noteq> v" "j < length scores" by auto
    with m show "scores ! j < v" by (simp add: less_le)
  qed
  ultimately show ?thesis using i by simp
qed

lemma best_description_index_total:
  assumes "scores \<noteq> []"
  shows "\<exists>i. best_description_index scores = Inr i \<and> i < length scores"
proof -
  from assms obtain x rest where xs: "scores = x # rest" by (cases scores) auto
  then obtain v where v: "py_max scores = Inr v" by (simp add: py_max_def)
  from py_max_Inr [OF v] have "v \<in> set scores" by simp
  from index_of_mem [OF this] obtain i where i: "index_of scores v = Inr i" by blast
  from index_of_Inr [OF i] have "i < length scores" by simp
  with v i show ?thesis by (simp add: best_description_index_def)
qed

subsection \<open>One scene, and the loop over the scenes\<close>

lemma classify_scene_emitted:
  assumes "classify_scene lg texts sd = Inr (Some r)"
  shows "\<exists>ff scores ac cc bi bd.
           first_frame sd = Some ff
         \<and> mean_scores lg (length texts) (frames sd) = Some scores
         \<and> action_confidence scores = Inr ac
         \<and> context_confidence (length texts) scores = Inr cc
         \<and> best_description_index scores = Inr bi
         \<and> py_index texts bi = Inr bd
         \<and> category r = fst (categorize ac cc)
         \<and> confidence r = snd (categorize ac cc)
         \<and> rec_first_frame r = ff
         \<and> best_description r = bd"
  using assms
  by (auto simp: classify_scene_def split: option.splits sum.splits)

lemma classify_scene_None_iff:
  "classify_scene lg texts sd = Inr None
     \<longleftrightarrow> first_frame sd = None \<or> (\<forall>f\<in>set (frames sd). lg f = None)"
proof (cases "first_frame sd")
  case None
  then show ?thesis by (simp add: classify_scene_def)
next
  case (Some ff)
  have "classify_scene lg texts sd = Inr None
          \<longleftrightarrow> mean_scores lg (length texts) (frames sd) = None"
    using Some by (auto simp: classify_scene_def split: option.splits sum.splits)
  with Some show ?thesis by (simp add: mean_scores_None_iff)
qed

lemma classify_scene_total:
  assumes M: "10 < length texts"
    and len: "\<forall>f\<in>set (frames sd). \<forall>l. lg f = Some l \<longrightarrow> length l = length texts"
  shows "\<exists>ro. classify_scene lg texts sd = Inr ro"
proof (cases "classify_scene lg texts sd = Inr None")
  case True
  then show ?thesis by blast
next
  case False
  then obtain ff scores where ff: "first_frame sd = Some ff"
    and ms: "mean_scores lg (length texts) (frames sd) = Some scores"
    by (auto simp: classify_scene_def split: option.splits)
  from mean_scores_length [OF len ms] have l: "length scores = length texts" .
  have "\<exists>ac. action_confidence scores = Inr ac"
    unfolding action_confidence_def
    by (rule mean_at_total) (use M l in \<open>auto simp: action_indices_def\<close>)
  then obtain ac where ac: "action_confidence scores = Inr ac" ..
  have "\<exists>cc. context_confidence (length texts) scores = Inr cc"
    unfolding context_confidence_def context_indices_upt
    by (rule mean_at_total) (use M l in auto)
  then obtain cc where cc: "context_confidence (length texts) scores = Inr cc" ..
  from M l have "scores \<noteq> []" by auto
  from best_description_index_total [OF this] obtain bi where
    bi: "best_description_index scores = Inr bi" "bi < length scores" by blast
  with l have "py_index texts bi = Inr (texts ! bi)" by (simp add: py_index_def)
  with ff ms ac cc bi(1) show ?thesis by (simp add: classify_scene_def)
qed

lemma classify_scene_drop_failed:
  "classify_scene lg texts (drop_failed_frames lg sd) = classify_scene lg texts sd"
  by (simp add: classify_scene_def drop_failed_frames_def mean_scores_scored
        cong: option.case_cong sum.case_cong)

lemma classify_loop_drop_failed:
  "classify_loop lg texts (map (\<lambda>(k, sd). (k, drop_failed_frames lg sd)) scenes) acc
     = classify_loop lg texts scenes acc"
  by (induction scenes arbitrary: acc)
     (auto simp: classify_scene_drop_failed split: sum.splits option.splits)

lemma classify_loop_total:
  assumes "\<forall>(k, sd)\<in>set scenes. \<exists>ro. classify_scene lg texts sd = Inr ro"
  shows "\<exists>out. classify_loop lg texts scenes acc = Inr out"
  using assms
proof (induction scenes arbitrary: acc)
  case Nil
  then show ?case by simp
next
  case (Cons p scenes)
  obtain k sd where p: "p = (k, sd)" by (cases p)
  with Cons.prems obtain ro where ro: "classify_scene lg texts sd = Inr ro" by auto
  from Cons.prems have rest: "\<forall>(k, sd)\<in>set scenes. \<exists>ro. classify_scene lg texts sd = Inr ro"
    by simp
  show ?case
  proof (cases ro)
    case None
    with p ro Cons.IH [OF rest, of acc] show ?thesis by simp
  next
    case (Some r)
    with p ro Cons.IH [OF rest, of "AList.update k r acc"] show ?thesis by simp
  qed
qed

lemma classify_loop_dom:
  assumes "classify_loop lg texts scenes acc = Inr out"
  shows "dom (map_of out)
           = dom (map_of acc)
             \<union> {k. \<exists>sd. (k, sd) \<in> set scenes \<and> classify_scene lg texts sd \<noteq> Inr None}"
  using assms
proof (induction scenes arbitrary: acc)
  case Nil
  then show ?case by simp
next
  case (Cons p scenes)
  obtain k sd where p: "p = (k, sd)" by (cases p)
  show ?case
  proof (cases "classify_scene lg texts sd")
    case (Inl e)
    with p Cons.prems show ?thesis by simp
  next
    case (Inr ro)
    show ?thesis
    proof (cases ro)
      case None
      with Inr p Cons.prems have "classify_loop lg texts scenes acc = Inr out" by simp
      from Cons.IH [OF this] None Inr p show ?thesis by auto
    next
      case (Some r)
      with Inr p Cons.prems have "classify_loop lg texts scenes (AList.update k r acc) = Inr out"
        by simp
      from Cons.IH [OF this] Some Inr p show ?thesis
        by (auto simp: update_conv' split: if_splits)
    qed
  qed
qed

section \<open>Facts about the frame-reading loop\<close>

lemma read_loop_stop:
  "\<not> cap_pos vc cap < e \<Longrightarrow> read_loop vc e cap fs ff = Some (fs, ff, cap)"
  by (subst read_loop.simps) simp

lemma read_loop_step:
  "cap_pos vc cap < e \<Longrightarrow>
     read_loop vc e cap fs ff =
       (case cap_read vc cap of
          (None, cap') \<Rightarrow> read_loop vc e cap' fs ff
        | (Some frame, cap') \<Rightarrow>
            read_loop vc e cap' (fs @ [frame]) (if ff = None then Some frame else ff))"
  by (subst read_loop.simps) simp

lemma first_of_snoc:
  "first_of (fs @ [frame]) = (if first_of fs = None then Some frame else first_of fs)"
  by (cases fs) (simp_all add: first_of_def)

lemma read_loop_first_of:
  assumes run: "read_loop vc e cap fs ff = Some y"
  shows "ff = first_of fs \<longrightarrow> fst (snd y) = first_of (fst y)"
proof (rule read_loop.raw_induct
    [where P = "\<lambda>vc e cap fs ff y. ff = first_of fs \<longrightarrow> fst (snd y) = first_of (fst y)",
     OF _ run], goal_cases)
  case (1 rl vc e cap fs ff y)
  note IH = 1(1) and eq = 1(2)
  show ?case
  proof (cases "cap_pos vc cap < e")
    case False
    with eq show ?thesis by auto
  next
    case True
    obtain r cap' where r: "cap_read vc cap = (r, cap')" by (cases "cap_read vc cap")
    show ?thesis
    proof (cases r)
      case None
      with True r eq have "rl vc e cap' fs ff = Some y" by simp
      from IH [OF this] show ?thesis .
    next
      case (Some frame)
      with True r eq
      have "rl vc e cap' (fs @ [frame]) (if ff = None then Some frame else ff) = Some y"
        by simp
      from IH [OF this] show ?thesis by (simp add: first_of_snoc)
    qed
  qed
qed

lemma extract_loop_first_of:
  assumes "extract_loop vc i scene_list cap acc = Some out"
    and "\<forall>k b. map_of acc k = Some b \<longrightarrow> first_frame b = first_of (frames b)"
    and "map_of out k = Some b"
  shows "first_frame b = first_of (frames b)"
  using assms
proof (induction scene_list arbitrary: i cap acc)
  case Nil
  then show ?case by simp
next
  case (Cons p rest)
  obtain st en where p: "p = (st, en)" by (cases p)
  from Cons.prems(1) p obtain fs ff cap' where
    rl: "read_loop vc (get_frames en) (cap_seek vc (get_frames st) cap) [] None = Some (fs, ff, cap')"
    and el: "extract_loop vc (i + 1) rest cap'
               (AList.update i \<lparr> start_time = st, end_time = en, frames = fs, first_frame = ff \<rparr> acc)
             = Some out"
    by (auto split: option.splits)
  from read_loop_first_of [OF rl] have "ff = first_of fs" by (simp add: first_of_def)
  with Cons.prems(2)
  have "\<forall>k b. map_of (AList.update i \<lparr> start_time = st, end_time = en, frames = fs, first_frame = ff \<rparr> acc) k
                 = Some b \<longrightarrow> first_frame b = first_of (frames b)"
    by (auto simp: update_conv')
  from Cons.IH [OF el this Cons.prems(3)] show ?case .
qed

section \<open>The concrete inputs, evaluated\<close>

lemma length_demo_texts: "length demo_texts = 12"
  by (simp add: demo_texts_def)

lemma context_indices_12: "context_indices 12 = [10, 11]"
  by (simp add: context_indices_upt upt_rec)

lemma replicate_numeral: "replicate (numeral k) x = x # replicate (pred_numeral k) x"
  by (simp add: numeral_eq_Suc)

lemma binade_numeral:
  "binade (numeral k) x = (if 1 / 2 \<le> x then 0 else Suc (binade (pred_numeral k) (2 * x)))"
  by (simp add: numeral_eq_Suc)

lemma float32_tenth: "float32 (1 / 10) = 13421773 / 134217728"
  by (simp add: float32_def binade_numeral round_half_even_def)

lemma float32_eleventh: "float32 (1 / 11) = 3050403 / 33554432"
  by (simp add: float32_def binade_numeral round_half_even_def)

lemma float32_twelfth: "float32 (1 / 12) = 11184811 / 134217728"
  by (simp add: float32_def binade_numeral round_half_even_def)

lemma float32_twenty_second: "float32 (1 / 22) = 3050403 / 67108864"
  by (simp add: float32_def binade_numeral round_half_even_def)

lemma softmax_tie_frame:
  "softmax tie_frame
     = [11184811 / 134217728, 11184811 / 134217728, 11184811 / 134217728,
        11184811 / 134217728, 11184811 / 134217728, 11184811 / 134217728,
        11184811 / 134217728, 11184811 / 134217728, 11184811 / 134217728,
        11184811 / 134217728, 11184811 / 134217728, 11184811 / 134217728]"
  by (simp add: softmax_def tie_frame_def float32_twelfth)

lemma softmax_action_frame:
  "softmax action_frame
     = [3050403 / 33554432, 3050403 / 33554432, 3050403 / 33554432, 3050403 / 33554432,
        3050403 / 33554432, 3050403 / 33554432, 3050403 / 33554432, 3050403 / 33554432,
        3050403 / 33554432, 3050403 / 33554432, 3050403 / 67108864, 3050403 / 67108864]"
  by (simp add: softmax_def action_frame_def float32_eleventh float32_twenty_second)

lemma demo_lg_tie_frame: "demo_lg tie_frame = Some tie_frame"
  by (simp add: demo_lg_def tie_frame_def)

lemma demo_lg_action_frame: "demo_lg action_frame = Some action_frame"
  by (simp add: demo_lg_def action_frame_def)

lemma demo_lg_empty: "demo_lg [] = None"
  by (simp add: demo_lg_def)

lemma tie_scene_mean:
  "mean_scores demo_lg 12 (frames tie_scene) = Some (softmax tie_frame)"
  by (simp add: mean_scores_def tie_scene_def demo_lg_tie_frame demo_lg_empty
        softmax_tie_frame replicate_numeral)

lemma action_scene_mean:
  "mean_scores demo_lg 12 (frames action_scene) = Some (softmax action_frame)"
  by (simp add: mean_scores_def action_scene_def demo_lg_action_frame demo_lg_empty
        softmax_action_frame replicate_numeral)

lemmas confidence_defs =
  action_confidence_def context_confidence_def context_indices_12 mean_at_def
  action_indices_def py_index_def best_description_index_def py_max_def

lemma tie_scene_classified:
  "classify_scene demo_lg demo_texts tie_scene = Inr (Some tie_record)"
proof -
  have "first_frame tie_scene = Some tie_frame" by (simp add: tie_scene_def)
  then show ?thesis
    by (simp add: classify_scene_def length_demo_texts tie_scene_mean softmax_tie_frame
          confidence_defs
          categorize_def tie_record_def)
       (simp add: demo_texts_def tie_scene_def tc_def)
qed

lemma action_scene_classified:
  "classify_scene demo_lg demo_texts action_scene = Inr (Some action_record)"
proof -
  have "first_frame action_scene = Some []" by (simp add: action_scene_def)
  then show ?thesis
    by (simp add: classify_scene_def length_demo_texts action_scene_mean softmax_action_frame
          confidence_defs
          categorize_def action_record_def)
       (simp add: demo_texts_def action_scene_def tc_def)
qed

lemma unscored_scene_classified:
  "classify_scene demo_lg demo_texts unscored_scene = Inr None"
  by (simp add: classify_scene_None_iff unscored_scene_def demo_lg_def)

lemma headless_scene_classified:
  "classify_scene demo_lg demo_texts headless_scene = Inr None"
  by (simp add: classify_scene_None_iff headless_scene_def)

lemma demo_scenes_classified:
  "classify_and_categorize_scenes demo_lg demo_texts demo_scenes
     = Inr [(0, tie_record), (1, action_record)]"
  by (simp add: classify_and_categorize_scenes_def demo_scenes_def tie_scene_classified
        action_scene_classified unscored_scene_classified headless_scene_classified)

lemma demo_lg_lengths:
  "\<forall>(k, sd)\<in>set demo_scenes. \<forall>f\<in>set (frames sd). \<forall>l.
     demo_lg f = Some l \<longrightarrow> length l = length demo_texts"
  by (simp add: demo_scenes_def tie_scene_def action_scene_def unscored_scene_def
        headless_scene_def demo_lg_def tie_frame_def action_frame_def length_demo_texts)

lemma demo_capture_pos: "cap_pos demo_capture p = p"
  by (simp add: demo_capture_def)

lemma demo_capture_seek: "cap_seek demo_capture n p = n"
  by (simp add: demo_capture_def)

lemma demo_capture_read:
  "cap_read demo_capture p = (if p < 6 then (demo_video ! p, Suc p) else (None, p))"
  by (simp add: demo_capture_def demo_video_def)

lemma demo_read_0_2: "read_loop demo_capture 2 0 [] None = Some ([10], Some 10, 2)"
proof -
  have "read_loop demo_capture 2 0 [] None = read_loop demo_capture 2 (Suc 0) [10] (Some 10)"
    by (simp add: read_loop_step demo_capture_pos demo_capture_read demo_video_def)
  also have "\<dots> = read_loop demo_capture 2 (Suc (Suc 0)) [10] (Some 10)"
    by (simp add: read_loop_step demo_capture_pos demo_capture_read demo_video_def)
  also have "\<dots> = Some ([10], Some 10, Suc (Suc 0))"
    by (simp add: read_loop_stop demo_capture_pos)
  finally show ?thesis by (simp add: numeral_2_eq_2)
qed

lemma demo_read_2_4: "read_loop demo_capture 4 2 [] None = Some ([12, 13], Some 12, 4)"
proof -
  have "read_loop demo_capture 4 2 [] None = read_loop demo_capture 4 3 [12] (Some 12)"
    by (simp add: read_loop_step demo_capture_pos demo_capture_read demo_video_def)
  also have "\<dots> = read_loop demo_capture 4 4 [12, 13] (Some 12)"
    by (simp add: read_loop_step demo_capture_pos demo_capture_read demo_video_def)
  also have "\<dots> = Some ([12, 13], Some 12, 4)"
    by (simp add: read_loop_stop demo_capture_pos)
  finally show ?thesis .
qed

lemma demo_read_4_6: "read_loop demo_capture 6 4 [] None = Some ([], None, 6)"
proof -
  have "read_loop demo_capture 6 4 [] None = read_loop demo_capture 6 5 [] None"
    by (simp add: read_loop_step demo_capture_pos demo_capture_read demo_video_def)
  also have "\<dots> = read_loop demo_capture 6 6 [] None"
    by (simp add: read_loop_step demo_capture_pos demo_capture_read demo_video_def)
  also have "\<dots> = Some ([], None, 6)"
    by (simp add: read_loop_stop demo_capture_pos)
  finally show ?thesis .
qed

lemma demo_extracted: "extract_frames demo_capture 0 demo_scene_list = Some demo_bundles"
  by (simp add: extract_frames_def demo_scene_list_def tc_def demo_capture_seek
        demo_read_0_2 demo_read_2_4 demo_read_4_6 demo_bundles_def)

lemma short_capture_pos: "cap_pos short_capture p = p"
  by (simp add: short_capture_def)

lemma short_capture_seek: "cap_seek short_capture n p = n"
  by (simp add: short_capture_def)

lemma short_capture_read:
  "cap_read short_capture p = (if p < 2 then (Some p, Suc p) else (None, p))"
  by (simp add: short_capture_def)

lemma read_loop_at_end_aux:
  assumes run: "read_loop vc e cap fs ff = Some y"
  shows "\<not> (vc = short_capture \<and> e = 3 \<and> cap = 2)"
proof (rule read_loop.raw_induct
    [where P = "\<lambda>vc e cap fs ff y. \<not> (vc = short_capture \<and> e = 3 \<and> cap = 2)", OF _ run],
    goal_cases)
  case (1 rl vc e cap fs ff y)
  note IH = 1(1) and eq = 1(2)
  show ?case
  proof
    assume a: "vc = short_capture \<and> e = 3 \<and> cap = 2"
    with eq have "rl vc e cap fs ff = Some y"
      by (simp add: short_capture_pos short_capture_read)
    from IH [OF this] a show False by simp
  qed
qed

lemma read_loop_at_end: "read_loop short_capture 3 2 fs ff = None"
  using read_loop_at_end_aux [of short_capture 3 2 fs ff]
  by (cases "read_loop short_capture 3 2 fs ff") auto

section \<open>The claims\<close>

text \<open>
  Claim C1, as amended. The claim asks for a vocabulary of at least ten phrases; with exactly
  ten the context index list is empty and line 108 divides by its length, zero. With more
  than ten phrases, and a model that returns one logit per phrase for every frame it scores,
  classify\_and\_categorize\_scenes raises nothing (no index is out of range, no division is
  by zero) and stores a record for every scene whose first frame is an array and of which at
  least one frame is scored.
\<close>

theorem classify_completes_above_ten_phrases:
  assumes "10 < length texts"
    and "\<forall>(k, sd)\<in>set scenes. \<forall>f\<in>set (frames sd). \<forall>l. lg f = Some l \<longrightarrow> length l = length texts"
  shows "\<exists>out. classify_and_categorize_scenes lg texts scenes = Inr out
           \<and> (\<forall>(k, sd)\<in>set scenes.
                 first_frame sd \<noteq> None \<and> (\<exists>f\<in>set (frames sd). scored lg f)
                   \<longrightarrow> map_of out k \<noteq> None)"
proof -
  have "\<forall>(k, sd)\<in>set scenes. \<exists>ro. classify_scene lg texts sd = Inr ro"
    using classify_scene_total [OF assms(1)] assms(2) by fast
  from classify_loop_total [OF this] obtain out where
    out: "classify_loop lg texts scenes [] = Inr out" by blast
  have "map_of out k \<noteq> None"
    if "(k, sd) \<in> set scenes" "first_frame sd \<noteq> None" "\<exists>f\<in>set (frames sd). scored lg f"
    for k sd
  proof -
    from that(2,3) have "classify_scene lg texts sd \<noteq> Inr None"
      by (simp add: classify_scene_None_iff scored_def)
    with that(1) classify_loop_dom [OF out] have "k \<in> dom (map_of out)" by auto
    then show ?thesis by auto
  qed
  with out show ?thesis
    unfolding classify_and_categorize_scenes_def by blast
qed

theorem classify_completes_above_ten_phrases_witness:
  "10 < length demo_texts
   \<and> (\<exists>out. classify_and_categorize_scenes demo_lg demo_texts demo_scenes = Inr out
          \<and> map_of out 0 \<noteq> None \<and> map_of out 1 \<noteq> None)"
proof -
  have M: "10 < length demo_texts" by (simp add: length_demo_texts)
  from classify_completes_above_ten_phrases [OF M demo_lg_lengths] obtain out where
    out: "classify_and_categorize_scenes demo_lg demo_texts demo_scenes = Inr out"
    and present: "\<forall>(k, sd)\<in>set demo_scenes.
                    first_frame sd \<noteq> None \<and> (\<exists>f\<in>set (frames sd). scored demo_lg f)
                      \<longrightarrow> map_of out k \<noteq> None"
    by blast
  have "(0, tie_scene) \<in> set demo_scenes" "first_frame tie_scene \<noteq> None"
       "\<exists>f\<in>set (frames tie_scene). scored demo_lg f"
    by (simp_all add: demo_scenes_def tie_scene_def tie_frame_def scored_def demo_lg_def)
  with present have t: "map_of out 0 \<noteq> None" by blast
  have "(1, action_scene) \<in> set demo_scenes" "first_frame action_scene \<noteq> None"
       "\<exists>f\<in>set (frames action_scene). scored demo_lg f"
    by (simp_all add: demo_scenes_def action_scene_def action_frame_def scored_def demo_lg_def)
  with present have "map_of out 1 \<noteq> None" by blast
  with M out t show ?thesis by blast
qed

text \<open>Claim C1 as stated fails on a vocabulary of exactly ten phrases: the one frame of the
  scene is scored, and the function raises \<open>ZeroDivisionError\<close>.\<close>

theorem classify_ten_phrases_divides_by_zero:
  "10 \<le> length ten_texts
   \<and> first_frame ten_scene \<noteq> None
   \<and> scored demo_lg (hd (frames ten_scene))
   \<and> classify_and_categorize_scenes demo_lg ten_texts [(0, ten_scene)] = Inl ZeroDivisionError"
proof -
  have len: "length ten_texts = 10" by (simp add: ten_texts_def demo_texts_def)
  have ms: "mean_scores demo_lg 10 (frames ten_scene)
              = Some [13421773 / 134217728, 13421773 / 134217728, 13421773 / 134217728,
                      13421773 / 134217728, 13421773 / 134217728, 13421773 / 134217728,
                      13421773 / 134217728, 13421773 / 134217728, 13421773 / 134217728,
                      13421773 / 134217728]"
    by (simp add: mean_scores_def softmax_def ten_scene_def demo_lg_def replicate_numeral
          float32_tenth)
  have ff: "first_frame ten_scene = Some []" by (simp add: ten_scene_def)
  have "classify_scene demo_lg ten_texts ten_scene = Inl ZeroDivisionError"
    by (simp add: classify_scene_def len ms ff action_confidence_def context_confidence_def
          context_indices_upt mean_at_def action_indices_def py_index_def)
  then show ?thesis
    by (simp add: classify_and_categorize_scenes_def len ff)
       (simp add: ten_scene_def scored_def demo_lg_def)
qed



text \<open>
  Claim C3. For every scene that is classified, with a vocabulary of \<open>M\<close> phrases, the action
  confidence is the arithmetic mean of the mean scores at the indices 0 to 9 and the context
  confidence is the arithmetic mean of the mean scores at the remaining \<open>M - 10\<close> indices.
\<close>

theorem confidences_are_partition_means:
  assumes "classify_scene lg texts sd = Inr (Some r)"
  shows "\<exists>scores.
           mean_scores lg (length texts) (frames sd) = Some scores
         \<and> 10 < length texts \<and> length scores = length texts
         \<and> action_confidence scores = Inr ((\<Sum>i = 0..<10. scores ! i) / 10)
         \<and> context_confidence (length texts) scores
             = Inr ((\<Sum>i = 10..<length texts. scores ! i) / real (length texts - 10))"
proof -
  let ?M = "length texts"
  from classify_scene_emitted [OF assms] obtain scores ac cc where
    h: "mean_scores lg ?M (frames sd) = Some scores"
       "action_confidence scores = Inr ac"
       "context_confidence ?M scores = Inr cc"
    by blast
  have ai: "action_indices = [0..<10]"
    by (simp add: action_indices_def upt_rec)
  from h(3) have c: "[10..<?M] \<noteq> []" "\<forall>i\<in>set [10..<?M]. i < length scores"
       "cc = sum_list (map ((!) scores) [10..<?M]) / real (length [10..<?M])"
    using mean_at_Inr [of scores "[10..<?M]" cc]
    by (simp_all add: context_confidence_def context_indices_upt)
  from c(1) have M: "10 < ?M" by simp
  then have "?M - 1 \<in> set [10..<?M]" by auto
  with c(2) have "?M - 1 < length scores" by blast
  with M mean_scores_length_le [OF h(1)] have len: "length scores = ?M" by simp
  from h(2) have "ac = sum_list (map ((!) scores) [0..<10]) / real (length [0..<10])"
    using mean_at_Inr [of scores "[0..<10]" ac]
    by (simp add: action_confidence_def ai)
  then have a: "ac = (\<Sum>i = 0..<10. scores ! i) / 10"
    by (simp only: sum_list_nth_upt) simp
  from c(3) have c': "cc = (\<Sum>i = 10..<?M. scores ! i) / real (?M - 10)"
    by (simp only: sum_list_nth_upt) simp
  show ?thesis using h M len a c' by auto
qed

theorem confidences_are_partition_means_witness:
  "classify_scene demo_lg demo_texts action_scene = Inr (Some action_record)
   \<and> (\<exists>scores.
           mean_scores demo_lg (length demo_texts) (frames action_scene) = Some scores
         \<and> 10 < length demo_texts \<and> length scores = length demo_texts
         \<and> action_confidence scores = Inr ((\<Sum>i = 0..<10. scores ! i) / 10)
         \<and> context_confidence (length demo_texts) scores
             = Inr ((\<Sum>i = 10..<length demo_texts. scores ! i) / real (length demo_texts - 10)))"
  by (rule conjI [OF action_scene_classified
        confidences_are_partition_means [OF action_scene_classified]])

text \<open>
  Claim C4. A scene whose first frame is not a decoded image, and a scene none of whose
  frames is scored, are absent from the mapping the classifier returns, and they are the only
  scenes absent; a frame that fails to score changes nothing else, since the result is the
  one obtained with the failing frames removed from every scene.
\<close>

theorem dropped_scenes_characterised:
  assumes "classify_and_categorize_scenes lg texts scenes = Inr out"
    and "distinct (map fst scenes)"
    and "(k, sd) \<in> set scenes"
  shows "(map_of out k = None
            \<longleftrightarrow> first_frame sd = None \<or> (\<forall>f\<in>set (frames sd). \<not> scored lg f))
       \<and> classify_and_categorize_scenes lg texts
            (map (\<lambda>(k, sd). (k, drop_failed_frames lg sd)) scenes) = Inr out"
proof -
  from assms(1) have out: "classify_loop lg texts scenes [] = Inr out"
    by (simp add: classify_and_categorize_scenes_def)
  have "k \<in> dom (map_of out) \<longleftrightarrow> classify_scene lg texts sd \<noteq> Inr None"
  proof
    assume "k \<in> dom (map_of out)"
    with classify_loop_dom [OF out] obtain sd' where
      sd': "(k, sd') \<in> set scenes" "classify_scene lg texts sd' \<noteq> Inr None" by auto
    from assms(2,3) sd'(1) have "sd' = sd" by (meson eq_key_imp_eq_value)
    with sd'(2) show "classify_scene lg texts sd \<noteq> Inr None" by simp
  next
    assume "classify_scene lg texts sd \<noteq> Inr None"
    with assms(3) classify_loop_dom [OF out] show "k \<in> dom (map_of out)" by auto
  qed
  then have "map_of out k = None \<longleftrightarrow> classify_scene lg texts sd = Inr None"
    by (auto simp: dom_def)
  then show ?thesis
    using assms(1)
    by (simp add: classify_scene_None_iff classify_and_categorize_scenes_def
          classify_loop_drop_failed scored_def)
qed

theorem dropped_scenes_characterised_witness:
  "classify_and_categorize_scenes demo_lg demo_texts demo_scenes
     = Inr [(0, tie_record), (1, action_record)]
   \<and> distinct (map fst demo_scenes)
   \<and> map_of [(0::nat, tie_record), (1, action_record)] 0 \<noteq> None
   \<and> map_of [(0::nat, tie_record), (1, action_record)] 2 = None
   \<and> map_of [(0::nat, tie_record), (1, action_record)] 3 = None
   \<and> classify_and_categorize_scenes demo_lg demo_texts
        (map (\<lambda>(k, sd). (k, drop_failed_frames demo_lg sd)) demo_scenes)
       = Inr [(0, tie_record), (1, action_record)]"
proof -
  have d: "distinct (map fst demo_scenes)" by (simp add: demo_scenes_def)
  have m: "(0, tie_scene) \<in> set demo_scenes" by (simp add: demo_scenes_def)
  from dropped_scenes_characterised [OF demo_scenes_classified d m] demo_scenes_classified d
  show ?thesis by simp
qed

text \<open>
  Claim C5. For every scene that is classified, the best description is the vocabulary phrase
  whose mean score is maximal, and among several phrases of maximal mean score it is the one
  of lowest index: every phrase before it has a strictly smaller mean score.
\<close>

theorem best_description_first_maximum:
  assumes "classify_scene lg texts sd = Inr (Some r)"
  shows "\<exists>scores i.
           mean_scores lg (length texts) (frames sd) = Some scores
         \<and> i < length scores \<and> i < length texts
         \<and> best_description r = texts ! i
         \<and> (\<forall>j<length scores. scores ! j \<le> scores ! i)
         \<and> (\<forall>j<i. scores ! j < scores ! i)"
proof -
  from classify_scene_emitted [OF assms] obtain scores bi bd where
    h: "mean_scores lg (length texts) (frames sd) = Some scores"
       "best_description_index scores = Inr bi"
       "py_index texts bi = Inr bd" "best_description r = bd"
    by blast
  from h(3) have "bi < length texts" "bd = texts ! bi"
    by (auto simp: py_index_def split: if_splits)
  with h(1,4) best_description_index_Inr [OF h(2)] show ?thesis by blast
qed

theorem best_description_first_maximum_witness:
  "classify_scene demo_lg demo_texts tie_scene = Inr (Some tie_record)
   \<and> (\<exists>scores i.
           mean_scores demo_lg (length demo_texts) (frames tie_scene) = Some scores
         \<and> i < length scores \<and> i < length demo_texts
         \<and> best_description tie_record = demo_texts ! i
         \<and> (\<forall>j<length scores. scores ! j \<le> scores ! i)
         \<and> (\<forall>j<i. scores ! j < scores ! i))"
  by (rule conjI [OF tie_scene_classified
        best_description_first_maximum [OF tie_scene_classified]])

text \<open>
  Claim C6. convert\_timestamp\_to\_seconds applied to "0:01:30" returns 90.0, and applied to
  "1:00:00.5" it returns 3600.5.
\<close>

theorem convert_timestamp_examples:
  "convert_timestamp_to_seconds ''0:01:30'' = Inr 90
   \<and> convert_timestamp_to_seconds ''1:00:00.5'' = Inr 3600.5"
  by (simp add: convert_timestamp_to_seconds_def py_float_def unsigned_decimal_def
        digit_value_def py_int_def)




text \<open>
  Claim C8: for every scene interval, the frame-reading loop in extract\_frames terminates
  after reaching the end frame of the interval, and a frame that fails to decode is skipped
  without aborting extraction. The code does not do this. A failed read is skipped by
  \<open>if ret:\<close>, but the loop has no other exit than its condition on the decoder position, and
  a failed read leaves the position where it is: on a video of two frames and the interval
  from frame 0 to frame 3, the loop reads the two frames and then repeats the failing read at
  position 2 for ever, so that extract\_frames never returns.
\<close>

theorem extract_frames_never_returns_past_end_of_video:
  "extract_frames short_capture 0 [(tc 0, tc 3)] = None"
proof -
  have "read_loop short_capture 3 0 [] None = read_loop short_capture 3 (Suc 0) [0] (Some 0)"
    by (subst read_loop.simps) (simp add: short_capture_pos short_capture_read)
  also have "\<dots> = read_loop short_capture 3 (Suc (Suc 0)) [0, Suc 0] (Some 0)"
    by (subst read_loop.simps) (simp add: short_capture_pos short_capture_read)
  also have "\<dots> = None"
    using read_loop_at_end [of "[0, Suc 0]" "Some 0"] by (simp add: numeral_2_eq_2)
  finally show ?thesis
    by (simp add: extract_frames_def tc_def short_capture_seek)
qed

text \<open>
  Claim C9. In every bundle that extract\_frames produces, if the frame sequence is not empty
  the first frame is the first element of the sequence, and if no frame was read the first
  frame is \<open>None\<close>.
\<close>

theorem first_frame_is_head_of_frames:
  assumes "extract_frames vc cap scene_list = Some out" and "map_of out k = Some b"
  shows "(frames b \<noteq> [] \<longrightarrow> first_frame b = Some (hd (frames b)))
       \<and> (frames b = [] \<longrightarrow> first_frame b = None)"
proof -
  have "first_frame b = first_of (frames b)"
    using assms extract_loop_first_of [of vc 0 scene_list cap "[]" out k b]
    by (simp add: extract_frames_def)
  then show ?thesis by (cases "frames b") (simp_all add: first_of_def)
qed

theorem first_frame_is_head_of_frames_witness:
  "extract_frames demo_capture 0 demo_scene_list = Some demo_bundles
   \<and> frames (the (map_of demo_bundles 1)) \<noteq> []
   \<and> first_frame (the (map_of demo_bundles 1)) = Some (hd (frames (the (map_of demo_bundles 1))))
   \<and> frames (the (map_of demo_bundles 2)) = []
   \<and> first_frame (the (map_of demo_bundles 2)) = None"
proof -
  have b1: "map_of demo_bundles 1 = Some (the (map_of demo_bundles 1))"
    and b2: "map_of demo_bundles 2 = Some (the (map_of demo_bundles 2))"
    by (simp_all add: demo_bundles_def)
  have f: "frames (the (map_of demo_bundles 1)) \<noteq> []" "frames (the (map_of demo_bundles 2)) = []"
    by (simp_all add: demo_bundles_def)
  from first_frame_is_head_of_frames [OF demo_extracted b1]
       first_frame_is_head_of_frames [OF demo_extracted b2] f demo_extracted
  show ?thesis by blast
qed



end
